theory Spec2Isabelle
  imports Complex_Main "HOL-Library.Product_Lexorder" "HOL-Library.Sublist" "HOL-Library.Multiset"
begin

section \<open>Python values and raw candidate payloads\<close>

text \<open>
  A raw candidate is what \<^verbatim>\<open>response.json()\<close> gives for one work: a dict from field
  names to JSON values. A Python \<^verbatim>\<open>str\<close> is a list of code points; the model covers the
  code points below 256 and reads an Isabelle character as the code point of the same
  number. JSON numbers with a fraction are left out of the value type.
\<close>

datatype pyval =
    PNone
  | PBool bool
  | PInt int
  | PStr string
  | PList "pyval list"
  | PDict "(string \<times> pyval) list"

type_synonym pydict = "(string \<times> pyval) list"

datatype error = AttributeError

text \<open>Truth value of a Python object, as \<^verbatim>\<open>or\<close> and \<^verbatim>\<open>if\<close> test it.\<close>

fun truthy :: "pyval \<Rightarrow> bool" where
  "truthy PNone = False"
| "truthy (PBool b) = b"
| "truthy (PInt i) = (i \<noteq> 0)"
| "truthy (PStr s) = (s \<noteq> [])"
| "truthy (PList xs) = (xs \<noteq> [])"
| "truthy (PDict d) = (d \<noteq> [])"

definition py_or :: "pyval \<Rightarrow> pyval \<Rightarrow> pyval" where
  "py_or x y = (if truthy x then x else y)"

text \<open>\<^verbatim>\<open>d.get(key)\<close> and \<^verbatim>\<open>d.get(key, default)\<close>; the list holds the items of the dict.\<close>

definition dict_get :: "pydict \<Rightarrow> string \<Rightarrow> pyval" where
  "dict_get d k = (case map_of d k of None \<Rightarrow> PNone | Some v \<Rightarrow> v)"

definition dict_get_default :: "pydict \<Rightarrow> string \<Rightarrow> pyval \<Rightarrow> pyval" where
  "dict_get_default d k dflt = (case map_of d k of None \<Rightarrow> dflt | Some v \<Rightarrow> v)"

subsection \<open>The built-in \<^verbatim>\<open>str()\<close>\<close>

fun dec_digits :: "nat \<Rightarrow> string" where
  "dec_digits n =
     (if n < 10 then [char_of (48 + n)]
      else dec_digits (n div 10) @ [char_of (48 + n mod 10)])"

definition str_int :: "int \<Rightarrow> string" where
  "str_int i = (if i < 0 then CHR ''-'' # dec_digits (nat (- i)) else dec_digits (nat i))"

definition hex_digit :: "nat \<Rightarrow> char" where
  "hex_digit n = (if n < 10 then char_of (48 + n) else char_of (87 + n))"

text \<open>
  \<^verbatim>\<open>repr\<close> of a string: double quotes when the text has a single quote and no double
  quote, single quotes otherwise; the quote and the backslash are escaped, tab, line feed
  and carriage return are written \<^verbatim>\<open>\t \n \r\<close>, every other code point that is not
  printable is written \<^verbatim>\<open>\xhh\<close>.
\<close>

definition printable :: "char \<Rightarrow> bool" where
  "printable c = (let n = (of_char c :: nat) in
     32 \<le> n \<and> n \<noteq> 127 \<and> \<not> (128 \<le> n \<and> n \<le> 160) \<and> n \<noteq> 173)"

definition repr_char :: "char \<Rightarrow> char \<Rightarrow> string" where
  "repr_char quote c =
     (if c = quote \<or> c = CHR 0x5C then [CHR 0x5C, c]
      else if c = CHR 0x09 then [CHR 0x5C, CHR ''t'']
      else if c = CHR 0x0A then [CHR 0x5C, CHR ''n'']
      else if c = CHR 0x0D then [CHR 0x5C, CHR ''r'']
      else if \<not> printable c then
        [CHR 0x5C, CHR ''x'', hex_digit ((of_char c :: nat) div 16), hex_digit ((of_char c :: nat) mod 16)]
      else [c])"

definition repr_str :: "string \<Rightarrow> string" where
  "repr_str s =
     (let quote = (if CHR 0x27 \<in> set s \<and> CHR 0x22 \<notin> set s then CHR 0x22 else CHR 0x27)
      in quote # concat (map (repr_char quote) s) @ [quote])"

fun join_with :: "string \<Rightarrow> string list \<Rightarrow> string" where
  "join_with sep [] = []"
| "join_with sep [w] = w"
| "join_with sep (w # v # ws) = w @ sep @ join_with sep (v # ws)"

fun py_repr :: "pyval \<Rightarrow> string" where
  "py_repr PNone = ''None''"
| "py_repr (PBool b) = (if b then ''True'' else ''False'')"
| "py_repr (PInt i) = str_int i"
| "py_repr (PStr s) = repr_str s"
| "py_repr (PList xs) = ''['' @ join_with '', '' (map py_repr xs) @ '']''"
| "py_repr (PDict d) =
     ''{'' @ join_with '', '' (map (\<lambda>kv. repr_str (fst kv) @ '': '' @ py_repr (snd kv)) d) @ ''}''"

definition py_str :: "pyval \<Rightarrow> string" where
  "py_str v = (case v of PStr s \<Rightarrow> s | _ \<Rightarrow> py_repr v)"

section \<open>Data model\<close>

record SpotifyTrack =
  track_id :: string
  title :: string
  artists :: "string list"
  album :: string
  isrc :: "string option"
  duration_ms :: int
  release_date :: "string option"
  track_number :: int
  disc_number :: int

text \<open>
  The fields of \<^verbatim>\<open>MusicalWork\<close> carry the prefix \<open>mw_\<close>, since \<^verbatim>\<open>WorkMatch\<close> has
  fields of the same names. The title and the work code of a parsed work are whatever value
  the payload holds, so they have the type of Python values.
\<close>

record MusicalWork =
  mw_work_id :: string
  mw_title :: pyval
  mw_source :: string
  mw_iswc :: pyval
  mw_writers :: "pyval list"
  mw_publishers :: "pyval list"
  mw_raw_data :: pydict

text \<open>
  The note of a title match is the text \<^verbatim>\<open>f"Title similarity: {similarity:.2%}"\<close>;
  the model keeps the similarity it renders. The field \<^verbatim>\<open>notes\<close> is \<open>wm_notes\<close> here
  (the name is a keyword of the prover).
\<close>

datatype match_note = Matched_via_ISRC | Title_similarity rat

record WorkMatch =
  spotify_track_id :: string
  spotify_title :: string
  spotify_isrc :: "string option"
  work_id :: string
  work_title :: pyval
  work_source :: string
  iswc :: pyval
  confidence_score :: rat
  match_method :: string
  wm_notes :: match_note

section \<open>MLCClient.parse_work\<close>

text \<open>
  The loop over writers (and publishers): a dict gives its \<^verbatim>\<open>name\<close> (default the
  empty string), a string gives itself, anything else is skipped.
\<close>

fun extract_names :: "pyval list \<Rightarrow> pyval list" where
  "extract_names [] = []"
| "extract_names (PDict d # rest) = dict_get_default d ''name'' (PStr []) # extract_names rest"
| "extract_names (PStr s # rest) = PStr s # extract_names rest"
| "extract_names (_ # rest) = extract_names rest"

definition names_of :: "pyval \<Rightarrow> pyval list" where
  "names_of v = (case v of PList xs \<Rightarrow> extract_names xs | _ \<Rightarrow> [])"

definition parse_work :: "pydict \<Rightarrow> MusicalWork" where
  "parse_work raw_work =
     \<lparr> mw_work_id = py_str (py_or (py_or (dict_get raw_work ''property_id'')
                                        (dict_get raw_work ''id''))
                                 (dict_get_default raw_work ''work_id'' (PStr []))),
       mw_title = dict_get_default raw_work ''title'' (PStr []),
       mw_source = ''MLC'',
       mw_iswc = dict_get raw_work ''iswc'',
       mw_writers = names_of (py_or (dict_get_default raw_work ''writers'' (PList []))
                                    (dict_get_default raw_work ''authors'' (PList []))),
       mw_publishers = names_of (dict_get_default raw_work ''publishers'' (PList [])),
       mw_raw_data = raw_work \<rparr>"

section \<open>WorkMatcher._normalize_title\<close>

subsection \<open>Characters\<close>

text \<open>\<^verbatim>\<open>str.lower\<close> on the code points below 256.\<close>

definition char_lower :: "char \<Rightarrow> char" where
  "char_lower c = (let n = (of_char c :: nat) in
     if (65 \<le> n \<and> n \<le> 90) \<or> (192 \<le> n \<and> n \<le> 222 \<and> n \<noteq> 215)
     then char_of (n + 32) else c)"

definition lower :: "string \<Rightarrow> string" where
  "lower s = map char_lower s"

text \<open>The whitespace of \<^verbatim>\<open>\s\<close> and of \<^verbatim>\<open>str.split()\<close>, the same set of code points.\<close>

definition isspace :: "char \<Rightarrow> bool" where
  "isspace c = ((of_char c :: nat) \<in> {9, 10, 11, 12, 13, 28, 29, 30, 31, 32, 133, 160})"

definition newline :: char where
  "newline = CHR 0x0A"

subsection \<open>The regular expressions\<close>

text \<open>
  Each pattern is matched at the start of the remaining text, and a match is returned as
  the number of characters it takes. None of the patterns looks behind, so a match attempt
  depends on the remaining text only.

  A literal character of a pattern is compared under \<^verbatim>\<open>re.IGNORECASE\<close>.
\<close>

definition lit_prefix :: "string \<Rightarrow> string \<Rightarrow> bool" where
  "lit_prefix lit s = (length lit \<le> length s \<and> map char_lower (take (length lit) s) = lit)"

text \<open>
  \<^verbatim>\<open>\s*\(.*?\)\s*\<close> and \<^verbatim>\<open>\s*\[.*?\]\s*\<close>: whitespace, the opening character, the
  shortest run of characters other than line feed that is followed by the closing
  character, the closing character, whitespace.
\<close>

definition match_span :: "char \<Rightarrow> char \<Rightarrow> string \<Rightarrow> nat option" where
  "match_span opn cls s =
     (let ws1 = takeWhile isspace s in
      case dropWhile isspace s of
        [] \<Rightarrow> None
      | c # r \<Rightarrow>
          if c \<noteq> opn then None
          else let body = takeWhile (\<lambda>x. x \<noteq> cls \<and> x \<noteq> newline) r in
            (case dropWhile (\<lambda>x. x \<noteq> cls \<and> x \<noteq> newline) r of
               [] \<Rightarrow> None
             | d # t \<Rightarrow>
                 if d \<noteq> cls then None
                 else Some (length ws1 + 1 + length body + 1 + length (takeWhile isspace t))))"

text \<open>
  \<^verbatim>\<open>\s*-\s*remaster.*\<close> (and remix, live): whitespace, a hyphen, whitespace, the word, the
  rest of the line.
\<close>

definition match_dash_marker :: "string \<Rightarrow> string \<Rightarrow> nat option" where
  "match_dash_marker word s =
     (let ws1 = takeWhile isspace s in
      case dropWhile isspace s of
        [] \<Rightarrow> None
      | c # r \<Rightarrow>
          if c \<noteq> CHR ''-'' then None
          else let ws2 = takeWhile isspace r; r2 = dropWhile isspace r in
            if lit_prefix word r2
            then Some (length ws1 + 1 + length ws2 + length word
                       + length (takeWhile (\<lambda>x. x \<noteq> newline) (drop (length word) r2)))
            else None)"

text \<open>\<^verbatim>\<open>\s*feat\..*\<close> and \<^verbatim>\<open>\s*ft\..*\<close>: whitespace, the word, the rest of the line.\<close>

definition match_marker :: "string \<Rightarrow> string \<Rightarrow> nat option" where
  "match_marker word s =
     (let ws1 = takeWhile isspace s; r = dropWhile isspace s in
      if lit_prefix word r
      then Some (length ws1 + length word
                 + length (takeWhile (\<lambda>x. x \<noteq> newline) (drop (length word) r)))
      else None)"

text \<open>
  \<^verbatim>\<open>re.sub(pattern, '', title)\<close>: scanning from the left, the leftmost match is removed
  and the scan goes on behind it; where no match starts, the character is kept. An empty
  match removes nothing (none of the patterns here has one).
\<close>

function re_sub :: "(string \<Rightarrow> nat option) \<Rightarrow> string \<Rightarrow> string" where
  "re_sub m [] = []"
| "re_sub m (x # xs) =
     (case m (x # xs) of
        None \<Rightarrow> x # re_sub m xs
      | Some n \<Rightarrow> if n = 0 then x # re_sub m xs else re_sub m (drop n (x # xs)))"
  by pat_completeness auto
termination
  by (relation "measure (\<lambda>(m, s). length s)") auto

subsection \<open>Whitespace\<close>

text \<open>\<^verbatim>\<open>title.split()\<close>: the maximal runs of characters that are not whitespace.\<close>

function split_ws :: "string \<Rightarrow> string list" where
  "split_ws s =
     (case dropWhile isspace s of
        [] \<Rightarrow> []
      | c # r \<Rightarrow> takeWhile (\<lambda>x. \<not> isspace x) (c # r)
                 # split_ws (dropWhile (\<lambda>x. \<not> isspace x) (c # r)))"
  by pat_completeness auto
termination
proof (relation "measure length", goal_cases)
  case 1
  show ?case by simp
next
  case (2 s c r)
  have "\<not> isspace c"
    using 2 hd_dropWhile [of isspace s] by (metis list.sel(1) list.distinct(1))
  then have "length (dropWhile (\<lambda>x. \<not> isspace x) (c # r)) \<le> length r"
    by (simp add: length_dropWhile_le)
  moreover have "length (c # r) \<le> length s"
    using 2 length_dropWhile_le [of isspace s] by simp
  ultimately show ?case by simp
qed

definition normalize_title :: "string \<Rightarrow> string" where
  "normalize_title title0 =
     (let title1 = lower title0;
          title2 = re_sub (match_span CHR ''('' CHR '')'') title1;
          title3 = re_sub (match_span CHR ''['' CHR '']'') title2;
          title4 = re_sub (match_dash_marker ''remaster'') title3;
          title5 = re_sub (match_dash_marker ''remix'') title4;
          title6 = re_sub (match_dash_marker ''live'') title5;
          title7 = re_sub (match_marker ''feat.'') title6;
          title8 = re_sub (match_marker ''ft.'') title7
      in join_with '' '' (split_ws title8))"

section \<open>difflib.SequenceMatcher\<close>

text \<open>
  \<^verbatim>\<open>calculate_title_similarity\<close> returns \<^verbatim>\<open>difflib.SequenceMatcher(None, t1, t2).ratio()\<close>.
  The matcher is the one of the Python standard library, with no junk function and with
  \<^verbatim>\<open>autojunk\<close> left at its default. Indices are natural numbers.
\<close>

text \<open>
  \<^verbatim>\<open>__chain_b\<close>: for each element the ascending list of its positions in \<open>b\<close>; when
  \<open>b\<close> has 200 elements or more, an element with more than \<open>n // 100 + 1\<close> positions is
  popular and loses its entry.
\<close>

definition chain_b :: "string \<Rightarrow> char \<Rightarrow> nat list" where
  "chain_b b elt =
     (let n = length b; idxs = filter (\<lambda>j. b ! j = elt) [0..<n]
      in if n \<ge> 200 \<and> length idxs > n div 100 + 1 then [] else idxs)"

text \<open>
  The inner loop of \<^verbatim>\<open>find_longest_match\<close> over the positions \<open>j\<close> of \<open>a[i]\<close> in \<open>b\<close>.
  \<^verbatim>\<open>j2len.get(j-1, 0)\<close> at \<open>j = 0\<close> asks for the key \<open>-1\<close>, which is never there.
  \<open>k \<le> i + 1\<close> and \<open>k \<le> j + 1\<close> hold (\<open>flm_inner_inv\<close> below), so the subtractions
  \<open>i + 1 - k\<close> and \<open>j + 1 - k\<close> are the exact ones.
\<close>

fun flm_inner ::
  "(nat \<rightharpoonup> nat) \<Rightarrow> nat \<Rightarrow> nat \<Rightarrow> nat \<Rightarrow> nat list
     \<Rightarrow> (nat \<rightharpoonup> nat) \<times> nat \<times> nat \<times> nat \<Rightarrow> (nat \<rightharpoonup> nat) \<times> nat \<times> nat \<times> nat" where
  "flm_inner j2len i blo bhi [] st = st"
| "flm_inner j2len i blo bhi (j # js) (newj2len, besti, bestj, bestsize) =
     (if j < blo then flm_inner j2len i blo bhi js (newj2len, besti, bestj, bestsize)
      else if j \<ge> bhi then (newj2len, besti, bestj, bestsize)
      else
        let k = (case (if j = 0 then None else j2len (j - 1)) of None \<Rightarrow> 0 | Some v \<Rightarrow> v) + 1
        in if k > bestsize
           then flm_inner j2len i blo bhi js (newj2len(j \<mapsto> k), i + 1 - k, j + 1 - k, k)
           else flm_inner j2len i blo bhi js (newj2len(j \<mapsto> k), besti, bestj, bestsize))"

text \<open>The outer loop, \<^verbatim>\<open>for i in range(alo, ahi)\<close>.\<close>

fun flm_outer ::
  "string \<Rightarrow> (char \<Rightarrow> nat list) \<Rightarrow> nat \<Rightarrow> nat \<Rightarrow> nat list
     \<Rightarrow> (nat \<rightharpoonup> nat) \<times> nat \<times> nat \<times> nat \<Rightarrow> (nat \<rightharpoonup> nat) \<times> nat \<times> nat \<times> nat" where
  "flm_outer a b2j blo bhi [] st = st"
| "flm_outer a b2j blo bhi (i # is) (j2len, besti, bestj, bestsize) =
     (case flm_inner j2len i blo bhi (b2j (a ! i)) (Map.empty, besti, bestj, bestsize) of
        (newj2len, besti', bestj', bestsize') \<Rightarrow>
          flm_outer a b2j blo bhi is (newj2len, besti', bestj', bestsize'))"

text \<open>
  The two loops that extend the best match by equal elements on each end. No element is
  junk, so the two further loops of the library, over junk elements, do nothing.
\<close>

function extend_back :: "string \<Rightarrow> string \<Rightarrow> nat \<Rightarrow> nat \<Rightarrow> nat \<times> nat \<times> nat \<Rightarrow> nat \<times> nat \<times> nat" where
  "extend_back a b alo blo (besti, bestj, bestsize) =
     (if besti > alo \<and> bestj > blo \<and> a ! (besti - 1) = b ! (bestj - 1)
      then extend_back a b alo blo (besti - 1, bestj - 1, bestsize + 1)
      else (besti, bestj, bestsize))"
  by pat_completeness auto
termination
  by (relation "measure (\<lambda>(a, b, alo, blo, besti, bestj, bestsize). besti)") auto

function extend_fwd :: "string \<Rightarrow> string \<Rightarrow> nat \<Rightarrow> nat \<Rightarrow> nat \<times> nat \<times> nat \<Rightarrow> nat \<times> nat \<times> nat" where
  "extend_fwd a b ahi bhi (besti, bestj, bestsize) =
     (if besti + bestsize < ahi \<and> bestj + bestsize < bhi
         \<and> a ! (besti + bestsize) = b ! (bestj + bestsize)
      then extend_fwd a b ahi bhi (besti, bestj, bestsize + 1)
      else (besti, bestj, bestsize))"
  by pat_completeness auto
termination
  by (relation "measure (\<lambda>(a, b, ahi, bhi, besti, bestj, bestsize). ahi - (besti + bestsize))") auto

definition find_longest_match ::
  "string \<Rightarrow> string \<Rightarrow> nat \<Rightarrow> nat \<Rightarrow> nat \<Rightarrow> nat \<Rightarrow> nat \<times> nat \<times> nat" where
  "find_longest_match a b alo ahi blo bhi =
     (case flm_outer a (chain_b b) blo bhi [alo..<ahi] (Map.empty, alo, blo, 0) of
        (j2len, besti, bestj, bestsize) \<Rightarrow>
          extend_fwd a b ahi bhi (extend_back a b alo blo (besti, bestj, bestsize)))"

text \<open>
  The bounds of the best match: it lies inside the window, and it is the empty match at
  the window's start when nothing matches. They are what makes the loop of
  \<^verbatim>\<open>get_matching_blocks\<close> end.
\<close>

definition j2len_ok :: "nat \<Rightarrow> nat \<Rightarrow> nat \<Rightarrow> (nat \<rightharpoonup> nat) \<Rightarrow> bool" where
  "j2len_ok rows blo bhi m = (\<forall>j k. m j = Some k \<longrightarrow> blo \<le> j \<and> j < bhi \<and> k \<le> rows \<and> k \<le> j + 1 - blo)"

definition best_ok :: "nat \<Rightarrow> nat \<Rightarrow> nat \<Rightarrow> nat \<Rightarrow> nat \<times> nat \<times> nat \<Rightarrow> bool" where
  "best_ok alo ahi blo bhi best =
     (case best of (besti, bestj, bestsize) \<Rightarrow>
        alo \<le> besti \<and> blo \<le> bestj \<and>
        (if bestsize = 0 then besti = alo \<and> bestj = blo
         else besti + bestsize \<le> ahi \<and> bestj + bestsize \<le> bhi))"

lemma flm_inner_inv:
  assumes "j2len_ok (i - alo) blo bhi j2len" "alo \<le> i"
    and "j2len_ok (i + 1 - alo) blo bhi newj2len" "best_ok alo (i + 1) blo bhi (besti, bestj, bestsize)"
    and "flm_inner j2len i blo bhi js (newj2len, besti, bestj, bestsize) = (m', best')"
  shows "j2len_ok (i + 1 - alo) blo bhi m' \<and> best_ok alo (i + 1) blo bhi best'"
  using assms
proof (induction js arbitrary: newj2len besti bestj bestsize)
  case Nil
  then show ?case by simp
next
  case (Cons j js)
  show ?case
  proof (cases "j < blo")
    case True
    with Cons show ?thesis by simp
  next
    case nlt: False
    show ?thesis
    proof (cases "j \<ge> bhi")
      case True
      with nlt Cons.prems show ?thesis by simp
    next
      case False
      define k where "k = (case (if j = 0 then None else j2len (j - 1)) of None \<Rightarrow> 0 | Some v \<Rightarrow> v) + 1"
      have kb: "k \<le> i + 1 - alo \<and> k \<le> j + 1 - blo \<and> 1 \<le> k"
      proof (cases "j = 0 \<or> j2len (j - 1) = None")
        case True
        then have "k = 1" by (auto simp: k_def)
        with Cons.prems(2) nlt show ?thesis by auto
      next
        case False
        then obtain v where v: "j \<noteq> 0" "j2len (j - 1) = Some v" by auto
        then have "k = v + 1" by (simp add: k_def)
        moreover have "blo \<le> j - 1 \<and> v \<le> i - alo \<and> v \<le> j - 1 + 1 - blo"
          using Cons.prems(1) v(2) unfolding j2len_ok_def by blast
        ultimately show ?thesis using Cons.prems(2) v(1) by auto
      qed
      have m_ok: "j2len_ok (i + 1 - alo) blo bhi (newj2len(j \<mapsto> k))"
        using Cons.prems(3) kb nlt False unfolding j2len_ok_def by auto
      show ?thesis
      proof (cases "k > bestsize")
        case True
        have b_ok: "best_ok alo (i + 1) blo bhi (i + 1 - k, j + 1 - k, k)"
          using kb nlt False Cons.prems(2) unfolding best_ok_def by auto
        have "flm_inner j2len i blo bhi js (newj2len(j \<mapsto> k), i + 1 - k, j + 1 - k, k) = (m', best')"
          using Cons.prems(5) nlt False True by (simp add: k_def Let_def)
        from Cons.IH [OF Cons.prems(1,2) m_ok b_ok this] show ?thesis .
      next
        case nb: False
        have "flm_inner j2len i blo bhi js (newj2len(j \<mapsto> k), besti, bestj, bestsize) = (m', best')"
          using Cons.prems(5) nlt False nb by (simp add: k_def Let_def)
        from Cons.IH [OF Cons.prems(1,2) m_ok Cons.prems(4) this] show ?thesis .
      qed
    qed
  qed
qed


lemma best_ok_mono: "best_ok alo n blo bhi best \<Longrightarrow> n \<le> n' \<Longrightarrow> best_ok alo n' blo bhi best"
  by (auto simp: best_ok_def split: prod.splits if_splits)

lemma j2len_ok_empty: "j2len_ok rows blo bhi Map.empty"
  by (simp add: j2len_ok_def)

lemma flm_outer_inv:
  assumes "j2len_ok (i - alo) blo bhi j2len" "alo \<le> i"
    and "best_ok alo i blo bhi (besti, bestj, bestsize)"
    and "flm_outer a b2j blo bhi [i..<ahi] (j2len, besti, bestj, bestsize) = (m', best')"
  shows "best_ok alo (max i ahi) blo bhi best'"
  using assms
proof (induction "ahi - i" arbitrary: i j2len besti bestj bestsize)
  case 0
  then have "[i..<ahi] = []" by simp
  with 0 show ?case by (simp add: max_def)
next
  case (Suc n)
  then have lt: "i < ahi" by simp
  then have upt: "[i..<ahi] = i # [Suc i..<ahi]" by (simp add: upt_conv_Cons)
  obtain m1 bi bj bs where inner:
    "flm_inner j2len i blo bhi (b2j (a ! i)) (Map.empty, besti, bestj, bestsize) = (m1, bi, bj, bs)"
    by (metis prod_cases4)
  have b1: "best_ok alo (i + 1) blo bhi (besti, bestj, bestsize)"
    by (rule best_ok_mono [OF Suc.prems(3)]) simp
  from flm_inner_inv [OF Suc.prems(1,2) j2len_ok_empty b1 inner]
  have inv1: "j2len_ok (i + 1 - alo) blo bhi m1" "best_ok alo (i + 1) blo bhi (bi, bj, bs)"
    by simp_all
  have rest: "flm_outer a b2j blo bhi [Suc i..<ahi] (m1, bi, bj, bs) = (m', best')"
    using Suc.prems(4) upt inner by simp
  have "n = ahi - Suc i" using Suc.hyps(2) by simp
  from Suc.hyps(1) [OF this, of m1 bi bj bs] inv1 rest Suc.prems(2)
  have "best_ok alo (max (Suc i) ahi) blo bhi best'" by simp
  with lt show ?case by (simp add: max_def)
qed

declare extend_back.simps [simp del] extend_fwd.simps [simp del]

lemma extend_back_inv:
  "best_ok alo ahi blo bhi best \<Longrightarrow> best_ok alo ahi blo bhi (extend_back a b alo blo best)"
proof (induction a b alo blo best rule: extend_back.induct)
  case (1 a b alo blo besti bestj bestsize)
  show ?case
  proof (cases "besti > alo \<and> bestj > blo \<and> a ! (besti - 1) = b ! (bestj - 1)")
    case True
    have step: "extend_back a b alo blo (besti, bestj, bestsize)
                = extend_back a b alo blo (besti - 1, bestj - 1, bestsize + 1)"
      by (subst extend_back.simps, subst if_P [OF True]) (rule refl)
    have "best_ok alo ahi blo bhi (besti - 1, bestj - 1, bestsize + 1)"
      using "1.prems" True unfolding best_ok_def by (auto split: if_splits)
    from "1.IH" [OF True this] show ?thesis unfolding step .
  next
    case False
    have "extend_back a b alo blo (besti, bestj, bestsize) = (besti, bestj, bestsize)"
      by (subst extend_back.simps, subst if_not_P [OF False]) (rule refl)
    with "1.prems" show ?thesis by simp
  qed
qed

lemma extend_fwd_inv:
  "best_ok alo ahi blo bhi best \<Longrightarrow> best_ok alo ahi blo bhi (extend_fwd a b ahi bhi best)"
proof (induction a b ahi bhi best rule: extend_fwd.induct)
  case (1 a b ahi bhi besti bestj bestsize)
  show ?case
  proof (cases "besti + bestsize < ahi \<and> bestj + bestsize < bhi
         \<and> a ! (besti + bestsize) = b ! (bestj + bestsize)")
    case True
    have step: "extend_fwd a b ahi bhi (besti, bestj, bestsize)
                = extend_fwd a b ahi bhi (besti, bestj, bestsize + 1)"
      by (subst extend_fwd.simps, subst if_P [OF True]) (rule refl)
    have "best_ok alo ahi blo bhi (besti, bestj, bestsize + 1)"
      using "1.prems" True unfolding best_ok_def by (auto split: if_splits)
    from "1.IH" [OF True this] show ?thesis unfolding step .
  next
    case False
    have "extend_fwd a b ahi bhi (besti, bestj, bestsize) = (besti, bestj, bestsize)"
      by (subst extend_fwd.simps, subst if_not_P [OF False]) (rule refl)
    with "1.prems" show ?thesis by simp
  qed
qed

lemma find_longest_match_bounds:
  assumes "find_longest_match a b alo ahi blo bhi = (i, j, k)"
  shows "alo \<le> i \<and> blo \<le> j \<and> (k = 0 \<or> (i + k \<le> ahi \<and> j + k \<le> bhi))"
proof -
  obtain m bi bj bs where outer:
    "flm_outer a (chain_b b) blo bhi [alo..<ahi] (Map.empty, alo, blo, 0) = (m, bi, bj, bs)"
    by (metis prod_cases4)
  have "best_ok alo alo blo bhi (alo, blo, 0)" by (simp add: best_ok_def)
  from flm_outer_inv [OF _ _ this outer] j2len_ok_empty
  have "best_ok alo (max alo ahi) blo bhi (bi, bj, bs)" by simp
  then have "best_ok alo ahi blo bhi (bi, bj, bs)"
    by (simp add: max_def best_ok_def split: if_splits)
  then have "best_ok alo ahi blo bhi (extend_fwd a b ahi bhi (extend_back a b alo blo (bi, bj, bs)))"
    by (intro extend_fwd_inv extend_back_inv)
  moreover have "extend_fwd a b ahi bhi (extend_back a b alo blo (bi, bj, bs)) = (i, j, k)"
    using assms outer by (simp add: find_longest_match_def)
  ultimately show ?thesis by (auto simp: best_ok_def split: if_splits)
qed


text \<open>
  The loop of \<^verbatim>\<open>get_matching_blocks\<close>. \<^verbatim>\<open>queue.pop()\<close> takes the last element of the
  Python list and \<^verbatim>\<open>queue.append\<close> adds behind it: the model keeps the list with its last
  element first.
\<close>

definition queue_measure :: "(nat \<times> nat \<times> nat \<times> nat) list \<Rightarrow> nat" where
  "queue_measure queue = sum_list (map (\<lambda>(alo, ahi, blo, bhi). 2 * (ahi - alo) + 1) queue)"

function gmb_loop ::
  "string \<Rightarrow> string \<Rightarrow> (nat \<times> nat \<times> nat \<times> nat) list \<Rightarrow> (nat \<times> nat \<times> nat) list
     \<Rightarrow> (nat \<times> nat \<times> nat) list" where
  "gmb_loop a b [] matching_blocks = matching_blocks"
| "gmb_loop a b ((alo, ahi, blo, bhi) # queue) matching_blocks =
     (case find_longest_match a b alo ahi blo bhi of
        (i, j, k) \<Rightarrow>
          if k \<noteq> 0 then
            gmb_loop a b
              ((if i + k < ahi \<and> j + k < bhi then [(i + k, ahi, j + k, bhi)] else [])
               @ (if alo < i \<and> blo < j then [(alo, i, blo, j)] else []) @ queue)
              (matching_blocks @ [(i, j, k)])
          else gmb_loop a b queue matching_blocks)"
  by pat_completeness auto
termination
proof (relation "measure (\<lambda>(a, b, queue, matching_blocks). queue_measure queue)", goal_cases)
  case 1
  show ?case by simp
next
  case 2
  then show ?case
    by (auto simp: queue_measure_def dest!: sym [THEN find_longest_match_bounds])
next
  case 3
  then show ?case by (simp add: queue_measure_def)
qed
text \<open>
  \<^verbatim>\<open>matching_blocks.sort()\<close> orders the triples lexicographically; the loop after it
  merges each block into the one before it when the two are adjacent.
\<close>

fun collapse_loop ::
  "(nat \<times> nat \<times> nat) list \<Rightarrow> nat \<times> nat \<times> nat \<Rightarrow> (nat \<times> nat \<times> nat) list
     \<Rightarrow> (nat \<times> nat \<times> nat) list \<times> (nat \<times> nat \<times> nat)" where
  "collapse_loop [] cur non_adjacent = (non_adjacent, cur)"
| "collapse_loop ((i2, j2, k2) # rest) (i1, j1, k1) non_adjacent =
     (if i1 + k1 = i2 \<and> j1 + k1 = j2 then collapse_loop rest (i1, j1, k1 + k2) non_adjacent
      else collapse_loop rest (i2, j2, k2)
             (if k1 \<noteq> 0 then non_adjacent @ [(i1, j1, k1)] else non_adjacent))"

definition get_matching_blocks :: "string \<Rightarrow> string \<Rightarrow> (nat \<times> nat \<times> nat) list" where
  "get_matching_blocks a b =
     (let la = length a; lb = length b;
          matching_blocks = sort (gmb_loop a b [(0, la, 0, lb)] [])
      in case collapse_loop matching_blocks (0, 0, 0) [] of
           (non_adjacent, (i1, j1, k1)) \<Rightarrow>
             (if k1 \<noteq> 0 then non_adjacent @ [(i1, j1, k1)] else non_adjacent) @ [(la, lb, 0)])"

definition block_sizes :: "(nat \<times> nat \<times> nat) list \<Rightarrow> nat" where
  "block_sizes blocks = sum_list (map (\<lambda>(i, j, k). k) blocks)"

text \<open>
  \<^verbatim>\<open>_calculate_ratio\<close> and \<^verbatim>\<open>ratio\<close>. The library computes \<open>2.0 * matches / length\<close> in
  binary floating point; the model computes the same quotient as a rational number.
\<close>

definition calculate_ratio :: "nat \<Rightarrow> nat \<Rightarrow> rat" where
  "calculate_ratio matches len = (if len \<noteq> 0 then 2 * of_nat matches / of_nat len else 1)"

definition ratio :: "string \<Rightarrow> string \<Rightarrow> rat" where
  "ratio a b = calculate_ratio (block_sizes (get_matching_blocks a b)) (length a + length b)"

section \<open>WorkMatcher.calculate_title_similarity\<close>

definition calculate_title_similarity :: "string \<Rightarrow> string \<Rightarrow> rat" where
  "calculate_title_similarity title1 title2 =
     (let t1 = normalize_title title1; t2 = normalize_title title2 in ratio t1 t2)"

section \<open>WorkMatcher.match_track\<close>

definition TITLE_MATCH_THRESHOLD :: rat where
  "TITLE_MATCH_THRESHOLD = 85 / 100"

definition isrc_match :: "SpotifyTrack \<Rightarrow> MusicalWork \<Rightarrow> WorkMatch" where
  "isrc_match track work =
     \<lparr> spotify_track_id = track_id track,
       spotify_title = title track,
       spotify_isrc = isrc track,
       work_id = mw_work_id work,
       work_title = mw_title work,
       work_source = mw_source work,
       iswc = mw_iswc work,
       confidence_score = 95 / 100,
       match_method = ''ISRC'',
       wm_notes = Matched_via_ISRC \<rparr>"

definition title_match :: "SpotifyTrack \<Rightarrow> MusicalWork \<Rightarrow> rat \<Rightarrow> WorkMatch" where
  "title_match track work similarity =
     \<lparr> spotify_track_id = track_id track,
       spotify_title = title track,
       spotify_isrc = isrc track,
       work_id = mw_work_id work,
       work_title = mw_title work,
       work_source = mw_source work,
       iswc = mw_iswc work,
       confidence_score = similarity * (85 / 100),
       match_method = ''Title+Artist'',
       wm_notes = Title_similarity similarity \<rparr>"

text \<open>
  Strategy 1, the loop over the works that the search by ISRC returned: every one of them
  is parsed, stored under its work id and recorded as a match.
\<close>

fun isrc_loop ::
  "SpotifyTrack \<Rightarrow> pydict list \<Rightarrow> WorkMatch list \<times> (string \<rightharpoonup> MusicalWork)
     \<Rightarrow> WorkMatch list \<times> (string \<rightharpoonup> MusicalWork)" where
  "isrc_loop track [] st = st"
| "isrc_loop track (raw_work # rest) (matches, works_dict) =
     (let work = parse_work raw_work
      in isrc_loop track rest
           (matches @ [isrc_match track work], works_dict(mw_work_id work \<mapsto> work)))"

text \<open>
  Strategy 2, the loop over the works that the search by title returned. The similarity
  is computed first; \<^verbatim>\<open>_normalize_title\<close> calls \<^verbatim>\<open>title.lower()\<close>, which raises
  \<^verbatim>\<open>AttributeError\<close> when the title of the work is not a string.
\<close>

fun title_loop ::
  "SpotifyTrack \<Rightarrow> pydict list \<Rightarrow> WorkMatch list \<times> (string \<rightharpoonup> MusicalWork)
     \<Rightarrow> error + WorkMatch list \<times> (string \<rightharpoonup> MusicalWork)" where
  "title_loop track [] st = Inr st"
| "title_loop track (raw_work # rest) (matches, works_dict) =
     (let work = parse_work raw_work in
      case mw_title work of
        PStr work_title_str \<Rightarrow>
          (let similarity = calculate_title_similarity (title track) work_title_str in
           if similarity \<ge> TITLE_MATCH_THRESHOLD then
             if list_ex (\<lambda>m. work_id m = mw_work_id work) matches
             then title_loop track rest (matches, works_dict)
             else title_loop track rest
                    (matches @ [title_match track work similarity],
                     works_dict(mw_work_id work \<mapsto> work))
           else title_loop track rest (matches, works_dict))
      | _ \<Rightarrow> Inl AttributeError)"

text \<open>
  \<^verbatim>\<open>matches.sort(key=lambda m: m.confidence_score, reverse=True)\<close>: a stable sort by
  descending confidence.
\<close>

definition sort_by_confidence :: "WorkMatch list \<Rightarrow> WorkMatch list" where
  "sort_by_confidence matches = sort_key (\<lambda>m. - confidence_score m) matches"

text \<open>
  The two searches are the network: they are parameters, \<open>search_by_isrc\<close> from an ISRC
  and \<open>search_by_title\<close> from a title and an optional artist to the list of raw works.
\<close>

definition match_track ::
  "(string \<Rightarrow> pydict list) \<Rightarrow> (string \<Rightarrow> string option \<Rightarrow> pydict list) \<Rightarrow> SpotifyTrack
     \<Rightarrow> error + WorkMatch list \<times> (string \<rightharpoonup> MusicalWork)" where
  "match_track search_by_isrc search_by_title track =
     (let st1 = (case isrc track of
                   None \<Rightarrow> ([], Map.empty)
                 | Some code \<Rightarrow>
                     if code \<noteq> [] then isrc_loop track (search_by_isrc code) ([], Map.empty)
                     else ([], Map.empty));
          st2 = (if fst st1 = [] \<or> length (fst st1) < 2
                 then let artist = (if artists track \<noteq> [] then Some (hd (artists track)) else None)
                      in title_loop track (search_by_title (title track) artist) st1
                 else Inr st1)
      in case st2 of
           Inl e \<Rightarrow> Inl e
         | Inr (matches, works_dict) \<Rightarrow> Inr (sort_by_confidence matches, works_dict))"

section \<open>WorkMatcher.match_all_tracks\<close>

text \<open>\<^verbatim>\<open>all_matches.extend(matches)\<close> and \<^verbatim>\<open>all_works.update(works)\<close> for each track in turn.\<close>

fun match_all_loop ::
  "(string \<Rightarrow> pydict list) \<Rightarrow> (string \<Rightarrow> string option \<Rightarrow> pydict list) \<Rightarrow> SpotifyTrack list
     \<Rightarrow> WorkMatch list \<times> (string \<rightharpoonup> MusicalWork)
     \<Rightarrow> error + WorkMatch list \<times> (string \<rightharpoonup> MusicalWork)" where
  "match_all_loop search_by_isrc search_by_title [] st = Inr st"
| "match_all_loop search_by_isrc search_by_title (track # rest) (all_matches, all_works) =
     (case match_track search_by_isrc search_by_title track of
        Inl e \<Rightarrow> Inl e
      | Inr (matches, works) \<Rightarrow>
          match_all_loop search_by_isrc search_by_title rest
            (all_matches @ matches, all_works ++ works))"

definition match_all_tracks ::
  "(string \<Rightarrow> pydict list) \<Rightarrow> (string \<Rightarrow> string option \<Rightarrow> pydict list) \<Rightarrow> SpotifyTrack list
     \<Rightarrow> error + WorkMatch list \<times> (string \<rightharpoonup> MusicalWork)" where
  "match_all_tracks search_by_isrc search_by_title tracks =
     match_all_loop search_by_isrc search_by_title tracks ([], Map.empty)"

section \<open>Notions used in the statements\<close>

text \<open>
  The raw works each strategy of \<^verbatim>\<open>match_track\<close> loops over: strategy 1 runs when
  \<^verbatim>\<open>track.isrc\<close> is neither \<^verbatim>\<open>None\<close> nor empty and asks the search by ISRC; strategy 2
  asks the search by title with the first artist, if there is one.
\<close>

definition isrc_candidates :: "(string \<Rightarrow> pydict list) \<Rightarrow> SpotifyTrack \<Rightarrow> pydict list" where
  "isrc_candidates search_by_isrc track =
     (case isrc track of
        None \<Rightarrow> []
      | Some code \<Rightarrow> if code \<noteq> [] then search_by_isrc code else [])"

definition title_candidates ::
  "(string \<Rightarrow> string option \<Rightarrow> pydict list) \<Rightarrow> SpotifyTrack \<Rightarrow> pydict list" where
  "title_candidates search_by_title track =
     search_by_title (title track) (if artists track \<noteq> [] then Some (hd (artists track)) else None)"

text \<open>The works dict after \<^verbatim>\<open>works_dict[work.work_id] = work\<close> for each raw work in turn.\<close>

definition store_works :: "pydict list \<Rightarrow> (string \<rightharpoonup> MusicalWork) \<Rightarrow> (string \<rightharpoonup> MusicalWork)" where
  "store_works raws wd = fold (\<lambda>raw wd. wd(mw_work_id (parse_work raw) \<mapsto> parse_work raw)) raws wd"


text \<open>
  A raw work that has none of the fields \<^verbatim>\<open>parse_work\<close> reads the work id from.
\<close>

definition lacks_identifier :: "pydict \<Rightarrow> bool" where
  "lacks_identifier raw_work =
     (map_of raw_work ''property_id'' = None \<and> map_of raw_work ''id'' = None
      \<and> map_of raw_work ''work_id'' = None)"

section \<open>Concrete inputs\<close>

definition example_track :: SpotifyTrack where
  "example_track =
     \<lparr> track_id = ''t1'', title = ''a'', artists = [''Artist''], album = ''Album'',
       isrc = Some ''USCM51800011'', duration_ms = 200000, release_date = None,
       track_number = 1, disc_number = 1 \<rparr>"

definition example_track_no_isrc :: SpotifyTrack where
  "example_track_no_isrc = example_track \<lparr> isrc := None \<rparr>"

definition no_isrc_results :: "string \<Rightarrow> pydict list" where
  "no_isrc_results code = []"

definition no_title_results :: "string \<Rightarrow> string option \<Rightarrow> pydict list" where
  "no_title_results t artist = []"

definition codeless_payload :: pydict where
  "codeless_payload = [(''id'', PStr ''W1''), (''title'', PStr ''Other'')]"

definition codeless_search :: "string \<Rightarrow> pydict list" where
  "codeless_search code = [codeless_payload]"


definition dup_payload :: pydict where
  "dup_payload = [(''id'', PStr ''W1''), (''title'', PStr ''Other'')]"

definition dup_search :: "string \<Rightarrow> pydict list" where
  "dup_search code = [dup_payload, dup_payload]"

definition same_title_payload :: pydict where
  "same_title_payload = [(''id'', PStr ''W1''), (''title'', PStr ''a'')]"

definition same_title_search :: "string \<Rightarrow> string option \<Rightarrow> pydict list" where
  "same_title_search t artist = [same_title_payload]"

definition idless_first :: pydict where
  "idless_first = [(''title'', PStr ''First'')]"

definition idless_second :: pydict where
  "idless_second = [(''title'', PStr ''Second'')]"

definition idless_search :: "string \<Rightarrow> pydict list" where
  "idless_search code = [idless_first, idless_second]"

definition null_title_payload :: pydict where
  "null_title_payload = [(''id'', PStr ''W1''), (''title'', PNone)]"

definition null_title_search :: "string \<Rightarrow> string option \<Rightarrow> pydict list" where
  "null_title_search t artist = [null_title_payload]"

definition track_a :: SpotifyTrack where
  "track_a = example_track \<lparr> track_id := ''ta'', isrc := Some ''AAA'' \<rparr>"

definition track_b :: SpotifyTrack where
  "track_b = example_track \<lparr> track_id := ''tb'', isrc := Some ''BBB'' \<rparr>"

definition payload_first :: pydict where
  "payload_first = [(''id'', PStr ''W1''), (''title'', PStr ''First'')]"

definition payload_second :: pydict where
  "payload_second = [(''id'', PStr ''W1''), (''title'', PStr ''Second'')]"

definition two_code_search :: "string \<Rightarrow> pydict list" where
  "two_code_search code = (if code = ''AAA'' then [payload_first] else [payload_second])"

definition title_w2_payload :: pydict where
  "title_w2_payload = [(''id'', PStr ''W2''), (''title'', PStr ''a'')]"

definition skip_title_search :: "string \<Rightarrow> string option \<Rightarrow> pydict list" where
  "skip_title_search t artist = [same_title_payload, title_w2_payload, title_w2_payload]"

section \<open>Lemmas about the loops\<close>

lemma isrc_match_fields [simp]:
  "work_id (isrc_match track work) = mw_work_id work"
  "confidence_score (isrc_match track work) = 95 / 100"
  "match_method (isrc_match track work) = ''ISRC''"
  by (simp_all add: isrc_match_def)

lemma title_match_fields [simp]:
  "work_id (title_match track work s) = mw_work_id work"
  "confidence_score (title_match track work s) = s * (85 / 100)"
  "match_method (title_match track work s) = ''Title+Artist''"
  by (simp_all add: title_match_def)

lemma isrc_loop_matches:
  "fst (isrc_loop track raws (ms, wd)) = ms @ map (\<lambda>raw. isrc_match track (parse_work raw)) raws"
  by (induction raws arbitrary: ms wd) (simp_all add: Let_def)

lemma isrc_loop_works:
  "snd (isrc_loop track raws (ms, wd))
   = fold (\<lambda>raw wd. wd(mw_work_id (parse_work raw) \<mapsto> parse_work raw)) raws wd"
  by (induction raws arbitrary: ms wd) (simp_all add: Let_def)

lemma fold_store_lookup:
  "fold (\<lambda>raw wd. wd(mw_work_id (parse_work raw) \<mapsto> parse_work raw)) raws wd k
   = (if filter (\<lambda>r. mw_work_id (parse_work r) = k) raws = [] then wd k
      else Some (parse_work (last (filter (\<lambda>r. mw_work_id (parse_work r) = k) raws))))"
  by (induction raws rule: rev_induct) simp_all

declare title_loop.simps(2) [simp del]

lemma title_loop_step:
  assumes "mw_title (parse_work raw) = PStr t"
  shows "title_loop track (raw # rest) (ms, wd) =
     (if TITLE_MATCH_THRESHOLD \<le> calculate_title_similarity (title track) t then
        if list_ex (\<lambda>m. work_id m = mw_work_id (parse_work raw)) ms
        then title_loop track rest (ms, wd)
        else title_loop track rest
               (ms @ [title_match track (parse_work raw) (calculate_title_similarity (title track) t)],
                wd(mw_work_id (parse_work raw) \<mapsto> parse_work raw))
      else title_loop track rest (ms, wd))"
  using assms by (simp add: Let_def title_loop.simps(2))

lemma title_loop_error:
  assumes "\<And>t. mw_title (parse_work raw) \<noteq> PStr t"
  shows "title_loop track (raw # rest) (ms, wd) = Inl AttributeError"
  using assms by (cases "mw_title (parse_work raw)") (auto simp: Let_def title_loop.simps(2))

lemma title_loop_result:
  assumes "title_loop track raws (ms, wd) = Inr (ms', wd')"
  shows "\<exists>new. ms' = ms @ new
         \<and> (\<forall>m\<in>set new. \<exists>raw\<in>set raws. \<exists>t.
               mw_title (parse_work raw) = PStr t
               \<and> TITLE_MATCH_THRESHOLD \<le> calculate_title_similarity (title track) t
               \<and> m = title_match track (parse_work raw) (calculate_title_similarity (title track) t))
         \<and> distinct (map work_id new)
         \<and> work_id ` set new \<inter> work_id ` set ms = {}
         \<and> (\<forall>k\<in>work_id ` set ms. wd' k = wd k)"
  using assms
proof (induction raws arbitrary: ms wd)
  case Nil
  then show ?case by simp
next
  case (Cons raw rest)
  let ?work = "parse_work raw"
  have "\<exists>t. mw_title ?work = PStr t"
  proof (rule ccontr)
    assume "\<not> (\<exists>t. mw_title ?work = PStr t)"
    then have "title_loop track (raw # rest) (ms, wd) = Inl AttributeError"
      by (intro title_loop_error) blast
    with Cons.prems show False by simp
  qed
  then obtain t where t: "mw_title ?work = PStr t" by blast
  note step = title_loop_step [OF t, of track rest ms wd]
  let ?s = "calculate_title_similarity (title track) t"
  show ?case
  proof (cases "TITLE_MATCH_THRESHOLD \<le> ?s \<and> \<not> list_ex (\<lambda>m. work_id m = mw_work_id ?work) ms")
    case False
    then have "title_loop track rest (ms, wd) = Inr (ms', wd')"
      using Cons.prems False unfolding step by (simp split: if_splits)
    from Cons.IH [OF this] obtain new where new:
      "ms' = ms @ new"
      "\<forall>m\<in>set new. \<exists>raw\<in>set rest. \<exists>t.
               mw_title (parse_work raw) = PStr t
               \<and> TITLE_MATCH_THRESHOLD \<le> calculate_title_similarity (title track) t
               \<and> m = title_match track (parse_work raw) (calculate_title_similarity (title track) t)"
      "distinct (map work_id new)"
      "work_id ` set new \<inter> work_id ` set ms = {}"
      "\<forall>k\<in>work_id ` set ms. wd' k = wd k"
      by blast
    have "\<forall>m\<in>set new. \<exists>raw\<in>set (raw # rest). \<exists>t.
               mw_title (parse_work raw) = PStr t
               \<and> TITLE_MATCH_THRESHOLD \<le> calculate_title_similarity (title track) t
               \<and> m = title_match track (parse_work raw) (calculate_title_similarity (title track) t)"
      using new(2) by (meson list.set_intros(2))
    with new(1,3,4,5) show ?thesis by blast
  next
    case True
    let ?m = "title_match track ?work ?s"
    have "title_loop track rest (ms @ [?m], wd(mw_work_id ?work \<mapsto> ?work)) = Inr (ms', wd')"
      using Cons.prems True unfolding step by simp
    from Cons.IH [OF this] obtain new where new:
      "ms' = (ms @ [?m]) @ new"
      "\<forall>m\<in>set new. \<exists>raw\<in>set rest. \<exists>t.
               mw_title (parse_work raw) = PStr t
               \<and> TITLE_MATCH_THRESHOLD \<le> calculate_title_similarity (title track) t
               \<and> m = title_match track (parse_work raw) (calculate_title_similarity (title track) t)"
      "distinct (map work_id new)"
      "work_id ` set new \<inter> work_id ` set (ms @ [?m]) = {}"
      "\<forall>k\<in>work_id ` set (ms @ [?m]). wd' k = (wd(mw_work_id ?work \<mapsto> ?work)) k"
      by blast
    have fresh: "mw_work_id ?work \<notin> work_id ` set ms"
      using True by (auto simp: list_ex_iff)
    have "ms' = ms @ (?m # new)" using new(1) by simp
    moreover have "\<forall>m\<in>set (?m # new). \<exists>raw\<in>set (raw # rest). \<exists>t.
               mw_title (parse_work raw) = PStr t
               \<and> TITLE_MATCH_THRESHOLD \<le> calculate_title_similarity (title track) t
               \<and> m = title_match track (parse_work raw) (calculate_title_similarity (title track) t)"
    proof
      fix m assume "m \<in> set (?m # new)"
      then consider "m = ?m" | "m \<in> set new" by auto
      then show "\<exists>raw\<in>set (raw # rest). \<exists>t.
               mw_title (parse_work raw) = PStr t
               \<and> TITLE_MATCH_THRESHOLD \<le> calculate_title_similarity (title track) t
               \<and> m = title_match track (parse_work raw) (calculate_title_similarity (title track) t)"
      proof cases
        case 1
        with t True show ?thesis by (intro bexI [of _ raw]) auto
      next
        case 2
        with new(2) show ?thesis by (meson list.set_intros(2))
      qed
    qed
    moreover have "distinct (map work_id (?m # new))"
      using new(3,4) by auto
    moreover have "work_id ` set (?m # new) \<inter> work_id ` set ms = {}"
      using new(4) fresh by auto
    moreover have "\<forall>k\<in>work_id ` set ms. wd' k = wd k"
    proof
      fix k assume k: "k \<in> work_id ` set ms"
      then have ne: "k \<noteq> mw_work_id ?work" using fresh by blast
      from k have "k \<in> work_id ` set (ms @ [?m])" by auto
      with new(5) have "wd' k = (wd(mw_work_id ?work \<mapsto> ?work)) k" by blast
      with ne show "wd' k = wd k" by simp
    qed
    ultimately show ?thesis by blast
  qed
qed

lemma match_track_unfold:
  "match_track sbi sbt track =
     (let st1 = isrc_loop track (isrc_candidates sbi track) ([], Map.empty);
          st2 = (if length (fst st1) < 2 then title_loop track (title_candidates sbt track) st1
                 else Inr st1)
      in case st2 of Inl e \<Rightarrow> Inl e
         | Inr (matches, works_dict) \<Rightarrow> Inr (sort_by_confidence matches, works_dict))"
proof -
  have a: "(case isrc track of None \<Rightarrow> ([], Map.empty)
            | Some code \<Rightarrow> if code \<noteq> [] then isrc_loop track (sbi code) ([], Map.empty)
                           else ([], Map.empty))
           = isrc_loop track (isrc_candidates sbi track) ([], Map.empty)"
    by (simp add: isrc_candidates_def split: option.splits)
  have b: "\<And>xs :: WorkMatch list. (xs = [] \<or> length xs < 2) = (length xs < 2)"
    by auto
  show ?thesis
    unfolding match_track_def a b title_candidates_def Let_def ..
qed

lemma sort_key_same_key:
  "\<forall>x\<in>set xs. f x = c \<Longrightarrow> sort_key f xs = xs"
proof (induction xs)
  case Nil
  then show ?case by simp
next
  case (Cons x xs)
  then have "sort_key f xs = xs" by simp
  then have "sort_key f (x # xs) = insort_key f x xs" by simp
  also have "\<dots> = x # xs" using Cons.prems by (cases xs) simp_all
  finally show ?case .
qed

lemma mset_sort_by_confidence: "mset (sort_by_confidence ms) = mset ms"
  by (simp add: sort_by_confidence_def)

lemma set_sort_by_confidence: "set (sort_by_confidence ms) = set ms"
  by (simp add: sort_by_confidence_def)

lemma filter_sort_by_confidence:
  "filter P (sort_by_confidence ms) = sort_by_confidence (filter P ms)"
  by (simp add: sort_by_confidence_def filter_sort)

lemma sort_by_confidence_same:
  "\<forall>m\<in>set ms. confidence_score m = c \<Longrightarrow> sort_by_confidence ms = ms"
  unfolding sort_by_confidence_def by (rule sort_key_same_key [where c = "- c"]) simp

lemma length_filter_sort_by_confidence:
  "length (filter P (sort_by_confidence ms)) = length (filter P ms)"
proof -
  have "mset (filter P (sort_by_confidence ms)) = mset (filter P ms)"
    by (simp add: mset_sort_by_confidence)
  then show ?thesis by (metis size_mset)
qed

lemma match_track_shape:
  assumes "match_track sbi sbt track = Inr (ms, wd)"
  shows "\<exists>new. ms = sort_by_confidence
                     (map (\<lambda>raw. isrc_match track (parse_work raw)) (isrc_candidates sbi track) @ new)
         \<and> (\<forall>m\<in>set new. \<exists>raw\<in>set (title_candidates sbt track). \<exists>t.
               mw_title (parse_work raw) = PStr t
               \<and> TITLE_MATCH_THRESHOLD \<le> calculate_title_similarity (title track) t
               \<and> m = title_match track (parse_work raw) (calculate_title_similarity (title track) t))
         \<and> distinct (map work_id new)
         \<and> work_id ` set new \<inter> (\<lambda>raw. mw_work_id (parse_work raw)) ` set (isrc_candidates sbi track) = {}
         \<and> (\<forall>raw\<in>set (isrc_candidates sbi track).
               wd (mw_work_id (parse_work raw))
               = store_works (isrc_candidates sbi track) Map.empty (mw_work_id (parse_work raw)))"
proof -
  let ?cands = "isrc_candidates sbi track"
  let ?ims = "map (\<lambda>raw. isrc_match track (parse_work raw)) ?cands"
  let ?wd1 = "store_works ?cands Map.empty"
  have st1: "isrc_loop track ?cands ([], Map.empty) = (?ims, ?wd1)"
    using isrc_loop_matches [of track ?cands "[]" Map.empty]
      isrc_loop_works [of track ?cands "[]" Map.empty]
    by (simp add: store_works_def prod_eq_iff)
  have ids: "work_id ` set ?ims = (\<lambda>raw. mw_work_id (parse_work raw)) ` set ?cands"
    by (auto simp: image_iff)
  show ?thesis
  proof (cases "length ?ims < 2")
    case True
    then obtain ms2 where tl: "title_loop track (title_candidates sbt track) (?ims, ?wd1) = Inr (ms2, wd)"
      and ms: "ms = sort_by_confidence ms2"
      using assms unfolding match_track_unfold st1 Let_def
      by (auto split: sum.splits)
    from title_loop_result [OF tl] obtain new where new:
      "ms2 = ?ims @ new"
      "\<forall>m\<in>set new. \<exists>raw\<in>set (title_candidates sbt track). \<exists>t.
               mw_title (parse_work raw) = PStr t
               \<and> TITLE_MATCH_THRESHOLD \<le> calculate_title_similarity (title track) t
               \<and> m = title_match track (parse_work raw) (calculate_title_similarity (title track) t)"
      "distinct (map work_id new)"
      "work_id ` set new \<inter> work_id ` set ?ims = {}"
      "\<forall>k\<in>work_id ` set ?ims. wd k = ?wd1 k"
      by blast
    from new(5) have "\<forall>raw\<in>set ?cands. wd (mw_work_id (parse_work raw)) = ?wd1 (mw_work_id (parse_work raw))"
      unfolding ids by blast
    with new(1-4) ms show ?thesis unfolding ids by blast
  next
    case False
    then have "ms = sort_by_confidence (?ims @ [])" "wd = ?wd1"
      using assms unfolding match_track_unfold st1 Let_def by auto
    then show ?thesis by (intro exI [of _ "[]"]) simp
  qed
qed

lemma parse_codeless [simp]: "mw_work_id (parse_work codeless_payload) = ''W1''"
  by (simp add: parse_work_def codeless_payload_def dict_get_def dict_get_default_def py_or_def py_str_def)

lemma example_track_simps [simp]:
  "isrc example_track = Some ''USCM51800011''"
  "title example_track = ''a''"
  "artists example_track = [''Artist'']"
  "isrc example_track_no_isrc = None"
  "title example_track_no_isrc = ''a''"
  "artists example_track_no_isrc = [''Artist'']"
  by (simp_all add: example_track_def example_track_no_isrc_def)

lemma sort_by_confidence_small [simp]:
  "sort_by_confidence [] = []" "sort_by_confidence [m] = [m]"
  by (simp_all add: sort_by_confidence_def)



lemma parse_dup [simp]: "mw_work_id (parse_work dup_payload) = ''W1''"
  by (simp add: parse_work_def dup_payload_def dict_get_def dict_get_default_def py_or_def py_str_def)

lemma parse_same_title [simp]:
  "mw_work_id (parse_work same_title_payload) = ''W1''"
  "mw_title (parse_work same_title_payload) = PStr ''a''"
  by (simp_all add: parse_work_def same_title_payload_def dict_get_def dict_get_default_def
      py_or_def py_str_def)

lemma similarity_a_a: "calculate_title_similarity ''a'' ''a'' = 1"
  by code_simp

lemma threshold_le_1 [simp]: "TITLE_MATCH_THRESHOLD \<le> 1"
  by (simp add: TITLE_MATCH_THRESHOLD_def)

lemma dup_run:
  "match_track dup_search no_title_results example_track
   = Inr ([isrc_match example_track (parse_work dup_payload),
           isrc_match example_track (parse_work dup_payload)],
          [''W1'' \<mapsto> parse_work dup_payload])"
  by (simp add: match_track_def dup_search_def Let_def sort_by_confidence_def)

lemma same_title_run:
  "match_track no_isrc_results same_title_search example_track_no_isrc
   = Inr ([title_match example_track_no_isrc (parse_work same_title_payload) 1],
          [''W1'' \<mapsto> parse_work same_title_payload])"
  by (simp add: match_track_def same_title_search_def Let_def title_loop_step [where t = "''a''"]
      similarity_a_a)


lemma distinct_map_filter_length:
  "distinct (map f xs) \<Longrightarrow> x \<in> set xs \<Longrightarrow> length (filter (\<lambda>y. f y = f x) xs) = 1"
proof (induction xs)
  case Nil
  then show ?case by simp
next
  case (Cons y ys)
  show ?case
  proof (cases "x = y")
    case True
    have "f y \<notin> f ` set ys" using Cons.prems(1) by simp
    then have "\<forall>z\<in>set ys. f z \<noteq> f y" by (metis imageI)
    then have "filter (\<lambda>z. f z = f y) ys = []"
      by (simp add: filter_empty_conv)
    with True show ?thesis by simp
  next
    case False
    then have "x \<in> set ys" using Cons.prems(2) by simp
    moreover have "f y \<noteq> f x" using Cons.prems(1) \<open>x \<in> set ys\<close> by force
    ultimately show ?thesis using Cons by simp
  qed
qed


lemma lacks_identifier_work_id:
  "lacks_identifier raw_work \<Longrightarrow> mw_work_id (parse_work raw_work) = []"
  by (simp add: lacks_identifier_def parse_work_def dict_get_def dict_get_default_def py_or_def
      py_str_def)

lemma idless_lacks [simp]: "lacks_identifier idless_first" "lacks_identifier idless_second"
  by (simp_all add: lacks_identifier_def idless_first_def idless_second_def)

lemma idless_run:
  "match_track idless_search no_title_results example_track
   = Inr ([isrc_match example_track (parse_work idless_first),
           isrc_match example_track (parse_work idless_second)],
          [[] \<mapsto> parse_work idless_second])"
  by (simp add: match_track_def idless_search_def Let_def sort_by_confidence_def
      lacks_identifier_work_id)

lemma parse_idless_differ: "parse_work idless_first \<noteq> parse_work idless_second"
  by (simp add: parse_work_def idless_first_def idless_second_def)

lemma parse_payloads [simp]:
  "mw_work_id (parse_work payload_first) = ''W1''"
  "mw_work_id (parse_work payload_second) = ''W1''"
  by (simp_all add: parse_work_def payload_first_def payload_second_def dict_get_def
      dict_get_default_def py_or_def py_str_def)

lemma parse_payloads_differ: "parse_work payload_second \<noteq> parse_work payload_first"
  by (simp add: parse_work_def payload_first_def payload_second_def)

lemma track_ab_simps [simp]:
  "isrc track_a = Some ''AAA''" "isrc track_b = Some ''BBB''"
  "title track_a = ''a''" "title track_b = ''a''"
  "artists track_a = [''Artist'']" "artists track_b = [''Artist'']"
  by (simp_all add: track_a_def track_b_def example_track_def)

lemma track_a_run:
  "match_track two_code_search no_title_results track_a
   = Inr ([isrc_match track_a (parse_work payload_first)], [''W1'' \<mapsto> parse_work payload_first])"
  by (simp add: match_track_def two_code_search_def no_title_results_def Let_def)

lemma track_b_run:
  "match_track two_code_search no_title_results track_b
   = Inr ([isrc_match track_b (parse_work payload_second)], [''W1'' \<mapsto> parse_work payload_second])"
  by (simp add: match_track_def two_code_search_def no_title_results_def Let_def)

lemma match_all_loop_append:
  "match_all_loop sbi sbt (xs @ ys) st
   = (case match_all_loop sbi sbt xs st of Inl e \<Rightarrow> Inl e | Inr st' \<Rightarrow> match_all_loop sbi sbt ys st')"
proof (induction xs arbitrary: st)
  case Nil
  then show ?case by simp
next
  case (Cons x xs)
  obtain am aw where st: "st = (am, aw)" by (cases st)
  show ?case unfolding st by (simp add: Cons.IH split: sum.splits prod.splits)
qed

lemma track_a_all_run:
  "match_all_tracks two_code_search no_title_results [track_a]
   = Inr ([isrc_match track_a (parse_work payload_first)], Map.empty ++ [''W1'' \<mapsto> parse_work payload_first])"
  by (simp add: match_all_tracks_def track_a_run)

lemma parse_title_w2 [simp]:
  "mw_work_id (parse_work title_w2_payload) = ''W2''"
  "mw_title (parse_work title_w2_payload) = PStr ''a''"
  by (simp_all add: parse_work_def title_w2_payload_def dict_get_def dict_get_default_def
      py_or_def py_str_def)

lemma parse_null_title [simp]:
  "mw_work_id (parse_work null_title_payload) = ''W1''"
  "mw_title (parse_work null_title_payload) = PNone"
  by (simp_all add: parse_work_def null_title_payload_def dict_get_def dict_get_default_def
      py_or_def py_str_def)

lemma skip_title_loop:
  "title_loop example_track [same_title_payload, title_w2_payload, title_w2_payload]
     ([isrc_match example_track (parse_work codeless_payload)],
      [''W1'' \<mapsto> parse_work codeless_payload])
   = Inr ([isrc_match example_track (parse_work codeless_payload),
           title_match example_track (parse_work title_w2_payload) 1],
          [''W1'' \<mapsto> parse_work codeless_payload, ''W2'' \<mapsto> parse_work title_w2_payload])"
  by (simp add: title_loop_step [where t = "''a''"] similarity_a_a)

lemma skip_run:
  "match_track codeless_search skip_title_search example_track
   = Inr ([isrc_match example_track (parse_work codeless_payload),
           title_match example_track (parse_work title_w2_payload) 1],
          [''W1'' \<mapsto> parse_work codeless_payload, ''W2'' \<mapsto> parse_work title_w2_payload])"
  by (simp add: match_track_def codeless_search_def skip_title_search_def Let_def skip_title_loop
      sort_by_confidence_def)


section \<open>The similarity lies between 0 and 1\<close>

text \<open>
  The blocks found in a window of \<open>a\<close> and \<open>b\<close> fit into the window, so the matched
  characters are at most as many as the shorter text has.
\<close>

definition queue_room :: "(nat \<times> nat \<times> nat \<times> nat) list \<Rightarrow> nat" where
  "queue_room queue = sum_list (map (\<lambda>(alo, ahi, blo, bhi). min (ahi - alo) (bhi - blo)) queue)"

declare gmb_loop.simps(2) [simp del]

lemma block_sizes_simps [simp]:
  "block_sizes [] = 0"
  "block_sizes ((i, j, k) # blocks) = k + block_sizes blocks"
  "block_sizes (xs @ ys) = block_sizes xs + block_sizes ys"
  by (simp_all add: block_sizes_def)

lemma queue_room_simps [simp]:
  "queue_room [] = 0"
  "queue_room ((alo, ahi, blo, bhi) # queue) = min (ahi - alo) (bhi - blo) + queue_room queue"
  "queue_room (xs @ ys) = queue_room xs + queue_room ys"
  by (simp_all add: queue_room_def)

lemma gmb_loop_sum:
  "block_sizes (gmb_loop a b queue matching_blocks) \<le> block_sizes matching_blocks + queue_room queue"
proof (induction a b queue matching_blocks rule: gmb_loop.induct)
  case (1 a b matching_blocks)
  then show ?case by simp
next
  case (2 a b alo ahi blo bhi queue matching_blocks)
  obtain i j k where flm: "find_longest_match a b alo ahi blo bhi = (i, j, k)"
    by (metis prod_cases3)
  show ?case
  proof (cases "k = 0")
    case True
    then have "gmb_loop a b ((alo, ahi, blo, bhi) # queue) matching_blocks
               = gmb_loop a b queue matching_blocks"
      by (subst gmb_loop.simps(2)) (simp add: flm)
    moreover have "block_sizes (gmb_loop a b queue matching_blocks)
                   \<le> block_sizes matching_blocks + queue_room queue"
      using "2.IH"(2) [OF flm [symmetric] refl] True by simp
    ultimately show ?thesis by simp
  next
    case False
    let ?new = "(if i + k < ahi \<and> j + k < bhi then [(i + k, ahi, j + k, bhi)] else [])
               @ (if alo < i \<and> blo < j then [(alo, i, blo, j)] else []) @ queue"
    from find_longest_match_bounds [OF flm] False
    have b: "alo \<le> i" "blo \<le> j" "i + k \<le> ahi" "j + k \<le> bhi" by simp_all
    have eq: "gmb_loop a b ((alo, ahi, blo, bhi) # queue) matching_blocks
              = gmb_loop a b ?new (matching_blocks @ [(i, j, k)])"
      by (subst gmb_loop.simps(2)) (simp add: flm False)
    have "block_sizes (gmb_loop a b ?new (matching_blocks @ [(i, j, k)]))
          \<le> block_sizes (matching_blocks @ [(i, j, k)]) + queue_room ?new"
      using "2.IH"(1) [OF flm [symmetric] refl] False by simp
    then have h1: "block_sizes (gmb_loop a b ?new (matching_blocks @ [(i, j, k)]))
          \<le> block_sizes matching_blocks + (k + queue_room ?new)"
      by (simp only: block_sizes_simps)
    have h2: "k + queue_room ?new \<le> min (ahi - alo) (bhi - blo) + queue_room queue"
      using b by (auto simp: min_def)
    show ?thesis unfolding eq queue_room_simps(2) using h1 h2 by linarith
  qed
qed

lemma block_sizes_sort: "block_sizes (sort blocks) = block_sizes blocks"
proof -
  have "mset (map (\<lambda>(i, j, k). k) (sort blocks)) = mset (map (\<lambda>(i, j, k). k) blocks)"
    by simp
  then show ?thesis unfolding block_sizes_def by (metis sum_mset_sum_list)
qed

lemma collapse_loop_sum:
  "collapse_loop rest (i1, j1, k1) non_adjacent = (na, (i, j, k))
   \<Longrightarrow> block_sizes na + k = block_sizes non_adjacent + k1 + block_sizes rest"
proof (induction rest arbitrary: i1 j1 k1 non_adjacent)
  case Nil
  then show ?case by simp
next
  case (Cons blk rest)
  obtain i2 j2 k2 where blk: "blk = (i2, j2, k2)" by (metis prod_cases3)
  show ?case
  proof (cases "i1 + k1 = i2 \<and> j1 + k1 = j2")
    case True
    then have "collapse_loop rest (i1, j1, k1 + k2) non_adjacent = (na, (i, j, k))"
      using Cons.prems blk by simp
    from Cons.IH [OF this] show ?thesis by (simp add: blk)
  next
    case False
    then have "collapse_loop rest (i2, j2, k2)
                 (if k1 \<noteq> 0 then non_adjacent @ [(i1, j1, k1)] else non_adjacent) = (na, (i, j, k))"
      using Cons.prems blk by auto
    from Cons.IH [OF this] show ?thesis by (simp add: blk)
  qed
qed

lemma block_sizes_get_matching_blocks:
  "block_sizes (get_matching_blocks a b) = block_sizes (gmb_loop a b [(0, length a, 0, length b)] [])"
proof -
  let ?mb = "sort (gmb_loop a b [(0, length a, 0, length b)] [])"
  obtain na i j k where c: "collapse_loop ?mb (0, 0, 0) [] = (na, (i, j, k))"
    by (metis prod_cases3)
  from collapse_loop_sum [OF c] have "block_sizes na + k = block_sizes ?mb" by simp
  moreover have "block_sizes (get_matching_blocks a b) = block_sizes na + k"
    using c by (simp add: get_matching_blocks_def Let_def)
  ultimately show ?thesis by (simp add: block_sizes_sort)
qed

lemma matches_le_min:
  "block_sizes (get_matching_blocks a b) \<le> min (length a) (length b)"
  using gmb_loop_sum [of a b "[(0, length a, 0, length b)]" "[]"]
  by (simp add: block_sizes_get_matching_blocks)

lemma ratio_bounds: "0 \<le> ratio a b \<and> ratio a b \<le> 1"
proof (cases "length a + length b = 0")
  case True
  then show ?thesis by (simp add: ratio_def calculate_ratio_def)
next
  case False
  let ?m = "block_sizes (get_matching_blocks a b)"
  let ?T = "length a + length b"
  have "2 * ?m \<le> ?T" using matches_le_min [of a b] by simp
  then have le: "(of_nat (2 * ?m) :: rat) \<le> of_nat ?T"
    by (simp only: of_nat_le_iff)
  have pos: "(0 :: rat) < of_nat ?T" using False by (simp only: of_nat_0_less_iff)
  have r: "ratio a b = of_nat (2 * ?m) / of_nat ?T"
    using False by (simp add: ratio_def calculate_ratio_def)
  have "(of_nat (2 * ?m) :: rat) / of_nat ?T \<le> 1"
    using le pos by (simp only: divide_le_eq_1_pos)
  moreover have "(0 :: rat) \<le> of_nat (2 * ?m) / of_nat ?T"
    by (rule divide_nonneg_nonneg) (simp_all only: of_nat_0_le_iff)
  ultimately show ?thesis unfolding r by blast
qed

lemma similarity_bounds:
  "0 \<le> calculate_title_similarity t1 t2 \<and> calculate_title_similarity t1 t2 \<le> 1"
  by (simp add: calculate_title_similarity_def Let_def ratio_bounds)


lemma title_match_records:
  assumes "match_track search_by_isrc search_by_title track = Inr (ms, wd)"
    and "m \<in> set ms" and "match_method m = ''Title+Artist''"
  shows "\<exists>raw\<in>set (title_candidates search_by_title track). \<exists>t.
           mw_title (parse_work raw) = PStr t
           \<and> TITLE_MATCH_THRESHOLD \<le> calculate_title_similarity (title track) t
           \<and> m = title_match track (parse_work raw) (calculate_title_similarity (title track) t)"
proof -
  let ?ims = "map (\<lambda>raw. isrc_match track (parse_work raw)) (isrc_candidates search_by_isrc track)"
  from match_track_shape [OF assms(1)] obtain new where new:
    "ms = sort_by_confidence (?ims @ new)"
    "\<forall>m\<in>set new. \<exists>raw\<in>set (title_candidates search_by_title track). \<exists>t.
               mw_title (parse_work raw) = PStr t
               \<and> TITLE_MATCH_THRESHOLD \<le> calculate_title_similarity (title track) t
               \<and> m = title_match track (parse_work raw) (calculate_title_similarity (title track) t)"
    by blast
  have "m \<in> set ?ims \<union> set new"
    using assms(2) unfolding new(1) set_sort_by_confidence by simp
  moreover have "m \<notin> set ?ims" using assms(3) by auto
  ultimately have "m \<in> set new" by blast
  with new(2) show ?thesis by blast
qed

section \<open>The similarity to an empty title\<close>

lemma extend_back_at_start: "extend_back a b alo blo (alo, blo, k) = (alo, blo, k)"
  by (subst extend_back.simps) simp

lemma extend_fwd_empty_a: "extend_fwd a b alo bhi (alo, bestj, 0) = (alo, bestj, 0)"
  by (subst extend_fwd.simps) simp

lemma extend_fwd_empty_b: "extend_fwd a b ahi blo (besti, blo, 0) = (besti, blo, 0)"
  by (subst extend_fwd.simps) simp

lemma flm_outer_no_positions:
  "(\<And>c. b2j c = []) \<Longrightarrow> snd (flm_outer a b2j blo bhi is st) = snd st"
proof (induction "is" arbitrary: st)
  case Nil
  then show ?case by simp
next
  case (Cons i "is")
  obtain j2len besti bestj bestsize where st: "st = (j2len, besti, bestj, bestsize)"
    by (metis prod_cases4)
  show ?case unfolding st using Cons by simp
qed

lemma chain_b_empty: "chain_b [] c = []"
  by (simp add: chain_b_def)

lemma find_longest_match_empty_a: "find_longest_match [] b 0 0 0 bhi = (0, 0, 0)"
  by (simp add: find_longest_match_def extend_back_at_start extend_fwd_empty_a)

lemma find_longest_match_empty_b: "find_longest_match a [] 0 ahi 0 0 = (0, 0, 0)"
proof -
  have "snd (flm_outer a (chain_b []) 0 0 [0..<ahi] (Map.empty, 0, 0, 0)) = (0, 0, 0)"
    using flm_outer_no_positions [of "chain_b []"] by (simp add: chain_b_empty)
  then obtain m where "flm_outer a (chain_b []) 0 0 [0..<ahi] (Map.empty, 0, 0, 0) = (m, 0, 0, 0)"
    by (metis prod.collapse)
  then show ?thesis
    by (simp add: find_longest_match_def extend_back_at_start extend_fwd_empty_b)
qed

lemma ratio_empty_a: "ratio [] b = (if b = [] then 1 else 0)"
proof -
  have "gmb_loop [] b [(0, 0, 0, length b)] [] = []"
    by (subst gmb_loop.simps(2)) (simp add: find_longest_match_empty_a)
  then have "block_sizes (get_matching_blocks [] b) = 0"
    using block_sizes_get_matching_blocks [of "[]" b] by simp
  then show ?thesis by (simp add: ratio_def calculate_ratio_def)
qed

lemma ratio_empty_b: "ratio a [] = (if a = [] then 1 else 0)"
proof -
  have "gmb_loop a [] [(0, length a, 0, 0)] [] = []"
    by (subst gmb_loop.simps(2)) (simp add: find_longest_match_empty_b)
  then have "block_sizes (get_matching_blocks a []) = 0"
    using block_sizes_get_matching_blocks [of a "[]"] by simp
  then show ?thesis by (simp add: ratio_def calculate_ratio_def)
qed

lemma similarity_tide_diet: "calculate_title_similarity ''tide'' ''diet'' = 1 / 4"
  by code_simp

lemma similarity_diet_tide: "calculate_title_similarity ''diet'' ''tide'' = 1 / 2"
  by code_simp

lemma normalize_live_span: "normalize_title ''(live)'' = []"
  by code_simp

section \<open>Claim C1: the exact-identifier strategy\<close>




section \<open>Claim C3: one record per work identifier\<close>

text \<open>
  C3 as stated says that the result of \<^verbatim>\<open>match_track\<close> has at most one record per work
  id, and that no two exact-code records share a work id. The ISRC loop compares nothing:
  when the search by ISRC returns the same work twice, both records are kept.
\<close>

theorem one_record_per_work_id_counterexample:
  "map work_id (fst (projr (match_track dup_search no_title_results example_track))) = [''W1'', ''W1'']
   \<and> map match_method (fst (projr (match_track dup_search no_title_results example_track)))
       = [''ISRC'', ''ISRC'']"
  by (simp add: dup_run)


text \<open>
  Claim C3, amended: a work id that has a title-fuzzy record in the result of
  \<^verbatim>\<open>match_track\<close> has exactly one record there. So a work id returned by both strategies
  keeps exact-code records only, and no two title-fuzzy records share a work id; the
  exact-code records are one per raw work returned and can repeat a work id.
\<close>

theorem title_record_work_id_unique:
  assumes "match_track search_by_isrc search_by_title track = Inr (ms, wd)"
  shows "\<forall>m\<in>set ms. match_method m = ''Title+Artist''
           \<longrightarrow> length (filter (\<lambda>m'. work_id m' = work_id m) ms) = 1"
proof (intro ballI impI)
  fix m assume m: "m \<in> set ms" and meth: "match_method m = ''Title+Artist''"
  let ?cands = "isrc_candidates search_by_isrc track"
  let ?ims = "map (\<lambda>raw. isrc_match track (parse_work raw)) ?cands"
  from match_track_shape [OF assms] obtain new where new:
    "ms = sort_by_confidence (?ims @ new)"
    "distinct (map work_id new)"
    "work_id ` set new \<inter> (\<lambda>raw. mw_work_id (parse_work raw)) ` set ?cands = {}"
    by blast
  have "m \<in> set ?ims \<union> set new"
    using m unfolding new(1) set_sort_by_confidence by simp
  moreover have "m \<notin> set ?ims" using meth by auto
  ultimately have m_new: "m \<in> set new" by blast
  have "filter (\<lambda>m'. work_id m' = work_id m) ?ims = []"
    using new(3) m_new by (auto simp: filter_empty_conv)
  moreover have "length (filter (\<lambda>m'. work_id m' = work_id m) new) = 1"
    by (rule distinct_map_filter_length [OF new(2) m_new])
  ultimately show "length (filter (\<lambda>m'. work_id m' = work_id m) ms) = 1"
    unfolding new(1) length_filter_sort_by_confidence by simp
qed

text \<open>
  The theorem of C3 at a run where the skip fires twice: the search by ISRC returns the
  work W1, and the search by title returns W1 (skipped, it has an ISRC record), W2
  (accepted) and W2 again (skipped, it has a title-fuzzy record).
\<close>

theorem title_record_work_id_unique_witness:
  "match_track codeless_search skip_title_search example_track
     = Inr ([isrc_match example_track (parse_work codeless_payload),
             title_match example_track (parse_work title_w2_payload) 1],
            [''W1'' \<mapsto> parse_work codeless_payload, ''W2'' \<mapsto> parse_work title_w2_payload])
   \<and> map (\<lambda>raw. mw_work_id (parse_work raw)) (isrc_candidates codeless_search example_track)
       = [''W1'']
   \<and> map (\<lambda>raw. mw_work_id (parse_work raw)) (title_candidates skip_title_search example_track)
       = [''W1'', ''W2'', ''W2'']
   \<and> match_method (title_match example_track (parse_work title_w2_payload) 1) = ''Title+Artist''
   \<and> length (filter (\<lambda>m'. work_id m' = ''W2'')
         [isrc_match example_track (parse_work codeless_payload),
          title_match example_track (parse_work title_w2_payload) 1]) = 1"
  using title_record_work_id_unique [OF skip_run] skip_run
  by (simp add: isrc_candidates_def title_candidates_def codeless_search_def skip_title_search_def)

section \<open>Claim C2: merging the work maps\<close>

text \<open>
  C2 as stated says that a work id already in the global map keeps its Work. The merge is
  \<^verbatim>\<open>all_works.update(works)\<close>: two recordings whose ISRC searches return the work id W1
  with different payloads leave the payload of the second recording in the global map.
\<close>

theorem first_writer_wins_counterexample:
  "snd (projr (match_all_tracks two_code_search no_title_results [track_a])) ''W1''
     = Some (parse_work payload_first)
   \<and> snd (projr (match_all_tracks two_code_search no_title_results [track_a, track_b])) ''W1''
     = Some (parse_work payload_second)
   \<and> parse_work payload_second \<noteq> parse_work payload_first"
  by (simp add: match_all_tracks_def track_a_run track_b_run parse_payloads_differ)

text \<open>
  Claim C2, amended: in \<^verbatim>\<open>match_all_tracks\<close>, the work map of each recording is merged
  over the global map: a work id of the later recording takes the later recording's Work
  (last writer wins), and the other work ids keep what the global map had.
\<close>

theorem later_recording_overwrites_work:
  assumes "match_all_tracks search_by_isrc search_by_title tracks = Inr (all_matches, all_works)"
    and "match_track search_by_isrc search_by_title track = Inr (matches, works)"
  shows "match_all_tracks search_by_isrc search_by_title (tracks @ [track])
           = Inr (all_matches @ matches, all_works ++ works)
         \<and> (\<forall>k v. works k = Some v \<longrightarrow> (all_works ++ works) k = Some v)
         \<and> (\<forall>k. works k = None \<longrightarrow> (all_works ++ works) k = all_works k)"
proof -
  have "match_all_tracks search_by_isrc search_by_title (tracks @ [track])
        = Inr (all_matches @ matches, all_works ++ works)"
    using assms unfolding match_all_tracks_def match_all_loop_append by simp
  then show ?thesis by (simp add: map_add_def)
qed

text \<open>The theorem of C2 at the two recordings above.\<close>

theorem later_recording_overwrites_work_witness:
  "match_all_tracks two_code_search no_title_results [track_a]
     = Inr ([isrc_match track_a (parse_work payload_first)],
            Map.empty ++ [''W1'' \<mapsto> parse_work payload_first])
   \<and> match_track two_code_search no_title_results track_b
     = Inr ([isrc_match track_b (parse_work payload_second)], [''W1'' \<mapsto> parse_work payload_second])
   \<and> match_all_tracks two_code_search no_title_results ([track_a] @ [track_b])
     = Inr ([isrc_match track_a (parse_work payload_first)]
              @ [isrc_match track_b (parse_work payload_second)],
            (Map.empty ++ [''W1'' \<mapsto> parse_work payload_first])
              ++ [''W1'' \<mapsto> parse_work payload_second])
   \<and> ((Map.empty ++ [''W1'' \<mapsto> parse_work payload_first])
              ++ [''W1'' \<mapsto> parse_work payload_second]) ''W1'' = Some (parse_work payload_second)"
  using later_recording_overwrites_work [OF track_a_all_run track_b_run] track_a_all_run track_b_run
  by simp

section \<open>Claim C4: the ceiling of the title-fuzzy confidence\<close>

text \<open>
  C4 as stated bounds the confidence of a title-fuzzy record by 0.8075. The confidence is
  \<^verbatim>\<open>similarity * 0.85\<close> and the similarity reaches 1: a candidate with the recording's
  own title gets confidence 0.85.
\<close>

theorem title_confidence_ceiling_counterexample:
  "fst (projr (match_track no_isrc_results same_title_search example_track_no_isrc))
     = [title_match example_track_no_isrc (parse_work same_title_payload) 1]
   \<and> match_method (title_match example_track_no_isrc (parse_work same_title_payload) 1)
     = ''Title+Artist''
   \<and> confidence_score (title_match example_track_no_isrc (parse_work same_title_payload) 1)
     = 85 / 100
   \<and> \<not> confidence_score (title_match example_track_no_isrc (parse_work same_title_payload) 1)
       \<le> 8075 / 10000"
  by (simp add: same_title_run)

text \<open>
  Claim C4, amended: every title-fuzzy record in the result of \<^verbatim>\<open>match_track\<close> has
  confidence at most 0.85, which is below the confidence 0.95 of an ISRC record.
\<close>

theorem title_confidence_at_most_085:
  assumes "match_track search_by_isrc search_by_title track = Inr (ms, wd)"
  shows "\<forall>m\<in>set ms. match_method m = ''Title+Artist''
           \<longrightarrow> confidence_score m \<le> 85 / 100 \<and> confidence_score m < 95 / 100"
proof (intro ballI impI)
  fix m assume "m \<in> set ms" "match_method m = ''Title+Artist''"
  from title_match_records [OF assms this] obtain raw t where
    m: "m = title_match track (parse_work raw) (calculate_title_similarity (title track) t)"
    by blast
  have "calculate_title_similarity (title track) t \<le> 1"
    using similarity_bounds by blast
  then show "confidence_score m \<le> 85 / 100 \<and> confidence_score m < 95 / 100"
    unfolding m by simp
qed

text \<open>The theorem of C4 at the run with the recording's own title.\<close>

theorem title_confidence_at_most_085_witness:
  "match_track no_isrc_results same_title_search example_track_no_isrc
     = Inr ([title_match example_track_no_isrc (parse_work same_title_payload) 1],
            [''W1'' \<mapsto> parse_work same_title_payload])
   \<and> match_method (title_match example_track_no_isrc (parse_work same_title_payload) 1)
     = ''Title+Artist''
   \<and> confidence_score (title_match example_track_no_isrc (parse_work same_title_payload) 1)
     \<le> 85 / 100
   \<and> confidence_score (title_match example_track_no_isrc (parse_work same_title_payload) 1)
     < 95 / 100"
  using title_confidence_at_most_085 [OF same_title_run] same_title_run by simp

section \<open>Claim C6: symmetry of the similarity\<close>

text \<open>
  C6 as stated says that the similarity of two titles does not depend on their order.
  \<^verbatim>\<open>SequenceMatcher\<close> takes the first longest block it finds, scanning its first
  argument: for "tide" and "diet" it is "t" at the end of "diet" (nothing is left to match
  on both sides of it), for "diet" and "tide" it is "d", and the "e" behind it matches too.
\<close>

theorem similarity_symmetric_counterexample:
  "calculate_title_similarity ''tide'' ''diet'' = 1 / 4
   \<and> calculate_title_similarity ''diet'' ''tide'' = 1 / 2
   \<and> calculate_title_similarity ''tide'' ''diet'' \<noteq> calculate_title_similarity ''diet'' ''tide''"
  by (simp add: similarity_tide_diet similarity_diet_tide)

text \<open>
  Claim C6, amended: the similarity of two titles is the same in both orders when their
  normalized forms are equal or when one of the normalized forms is empty; in every case
  both values lie between 0 and 1.
\<close>

theorem similarity_symmetric_when_equal_or_empty:
  "(normalize_title a = normalize_title b \<or> normalize_title a = [] \<or> normalize_title b = []
      \<longrightarrow> calculate_title_similarity a b = calculate_title_similarity b a)
   \<and> 0 \<le> calculate_title_similarity a b \<and> calculate_title_similarity a b \<le> 1
   \<and> 0 \<le> calculate_title_similarity b a \<and> calculate_title_similarity b a \<le> 1"
proof -
  have "calculate_title_similarity a b = calculate_title_similarity b a"
    if "normalize_title a = normalize_title b \<or> normalize_title a = [] \<or> normalize_title b = []"
    using that
    by (auto simp: calculate_title_similarity_def Let_def ratio_empty_a ratio_empty_b)
  then show ?thesis using similarity_bounds by blast
qed

text \<open>The theorem of C6 at a title that normalizes to the empty string.\<close>

theorem similarity_symmetric_when_equal_or_empty_witness:
  "normalize_title ''(live)'' = []
   \<and> calculate_title_similarity ''(live)'' ''abc'' = calculate_title_similarity ''abc'' ''(live)''"
  using similarity_symmetric_when_equal_or_empty [of "''(live)''" "''abc''"] normalize_live_span
  by simp

section \<open>Claim C7: the acceptance threshold of the title pass\<close>



section \<open>Claim C8: malformed candidate payloads\<close>

text \<open>
  Claim C8 says that parsing and evaluating a candidate never raises, also for a title
  field that holds null. \<^verbatim>\<open>parse_work\<close> keeps the null (the default of \<^verbatim>\<open>get\<close> is for a
  missing field only), and the title pass calls \<^verbatim>\<open>lower()\<close> on it: the run below, a
  recording with no ISRC and a search by title that returns one work with a null title,
  ends in \<^verbatim>\<open>AttributeError\<close>.
\<close>

theorem null_title_raises:
  "match_track no_isrc_results null_title_search example_track_no_isrc = Inl AttributeError"
  by (simp add: match_track_def null_title_search_def Let_def title_loop_error parse_work_def
      null_title_payload_def dict_get_default_def)

section \<open>Claim C9: the title pass skips work ids already matched\<close>





section \<open>Claim C10: works without an identifier\<close>

text \<open>
  Claim C10: a raw work with none of the identifier fields is parsed to the empty work
  id; each raw work of the ISRC pass whose work id is empty still gives its own ISRC
  record; and the works dict holds one entry for all of them, under the empty string, the
  Work of the last of them.
\<close>

theorem identifier_less_works_share_one_entry:
  assumes "match_track search_by_isrc search_by_title track = Inr (ms, wd)"
  shows "(\<forall>raw_work. lacks_identifier raw_work \<longrightarrow> mw_work_id (parse_work raw_work) = [])
       \<and> filter (\<lambda>m. match_method m = ''ISRC'' \<and> work_id m = []) ms
           = map (\<lambda>raw. isrc_match track (parse_work raw))
               (filter (\<lambda>raw. mw_work_id (parse_work raw) = []) (isrc_candidates search_by_isrc track))
       \<and> (filter (\<lambda>raw. mw_work_id (parse_work raw) = []) (isrc_candidates search_by_isrc track) \<noteq> []
            \<longrightarrow> wd [] = Some (parse_work (last (filter (\<lambda>raw. mw_work_id (parse_work raw) = [])
                                                  (isrc_candidates search_by_isrc track)))))"
proof -
  let ?cands = "isrc_candidates search_by_isrc track"
  let ?ims = "map (\<lambda>raw. isrc_match track (parse_work raw)) ?cands"
  let ?idless = "filter (\<lambda>raw. mw_work_id (parse_work raw) = []) ?cands"
  from match_track_shape [OF assms] obtain new where new:
    "ms = sort_by_confidence (?ims @ new)"
    "\<forall>m\<in>set new. \<exists>raw\<in>set (title_candidates search_by_title track). \<exists>t.
               mw_title (parse_work raw) = PStr t
               \<and> TITLE_MATCH_THRESHOLD \<le> calculate_title_similarity (title track) t
               \<and> m = title_match track (parse_work raw) (calculate_title_similarity (title track) t)"
    "\<forall>raw\<in>set ?cands. wd (mw_work_id (parse_work raw))
        = store_works ?cands Map.empty (mw_work_id (parse_work raw))"
    by blast
  have new_title: "\<forall>m\<in>set new. match_method m = ''Title+Artist''"
    using new(2) by fastforce
  have f_new: "filter (\<lambda>m. match_method m = ''ISRC'' \<and> work_id m = []) new = []"
    using new_title by (auto simp: filter_empty_conv)
  have f_ims: "filter (\<lambda>m. match_method m = ''ISRC'' \<and> work_id m = []) ?ims
               = map (\<lambda>raw. isrc_match track (parse_work raw)) ?idless"
    by (simp add: filter_map o_def)
  have "filter (\<lambda>m. match_method m = ''ISRC'' \<and> work_id m = []) ms
        = sort_by_confidence (map (\<lambda>raw. isrc_match track (parse_work raw)) ?idless)"
    unfolding new(1) filter_sort_by_confidence by (simp only: filter_append f_new f_ims append_Nil2)
  also have "\<dots> = map (\<lambda>raw. isrc_match track (parse_work raw)) ?idless"
    by (rule sort_by_confidence_same [where c = "95 / 100"]) auto
  finally have records: "filter (\<lambda>m. match_method m = ''ISRC'' \<and> work_id m = []) ms
        = map (\<lambda>raw. isrc_match track (parse_work raw)) ?idless" .
  have entry: "wd [] = Some (parse_work (last ?idless))" if ne: "?idless \<noteq> []"
  proof -
    from ne obtain raw where raw: "raw \<in> set ?cands" "mw_work_id (parse_work raw) = []"
      by (metis (mono_tags, lifting) filter_empty_conv)
    with new(3) have "wd [] = store_works ?cands Map.empty []" by metis
    also have "\<dots> = Some (parse_work (last ?idless))"
      using ne unfolding store_works_def fold_store_lookup by simp
    finally show ?thesis .
  qed
  show ?thesis using records entry lacks_identifier_work_id by blast
qed

text \<open>The theorem of C10 at two raw works that have a title only.\<close>

theorem identifier_less_works_share_one_entry_witness:
  "match_track idless_search no_title_results example_track
     = Inr ([isrc_match example_track (parse_work idless_first),
             isrc_match example_track (parse_work idless_second)],
            [[] \<mapsto> parse_work idless_second])
   \<and> lacks_identifier idless_first \<and> lacks_identifier idless_second
   \<and> mw_work_id (parse_work idless_first) = []
   \<and> filter (\<lambda>m. match_method m = ''ISRC'' \<and> work_id m = [])
        [isrc_match example_track (parse_work idless_first),
         isrc_match example_track (parse_work idless_second)]
       = [isrc_match example_track (parse_work idless_first),
          isrc_match example_track (parse_work idless_second)]
   \<and> [[] \<mapsto> parse_work idless_second] [] = Some (parse_work idless_second)
   \<and> parse_work idless_first \<noteq> parse_work idless_second"
  using identifier_less_works_share_one_entry [OF idless_run] idless_run parse_idless_differ
  by (simp add: lacks_identifier_work_id)

end
